theory Spec2Isabelle
  imports Main
begin

section \<open>Python values and their text\<close>

text \<open>
  The analyzer keeps every record as a dictionary from field names to values that were
  decoded from JSON or cut out of a page by a regular expression. The values the fields of
  this program hold are \<open>None\<close> (JSON null), integers and strings. A \<open>string\<close> is a list of
  bytes: text outside ASCII is its UTF-8 encoding, and a digit is one of the ten ASCII digits.
\<close>

datatype pyval = VNone | VInt int | VStr string

datatype py_error = TypeError | ValueError | OverflowError | OSError

type_synonym pydict = "string \<rightharpoonup> pyval"

text \<open>\<open>d.get(key, default)\<close>.\<close>

definition dict_get :: "pydict \<Rightarrow> string \<Rightarrow> pyval \<Rightarrow> pyval" where
  "dict_get d k dflt = (case d k of None \<Rightarrow> dflt | Some v \<Rightarrow> v)"

text \<open>The sentinel of the source for ``unknown'': a word of two characters (U+672A U+77E5), six
  bytes in UTF-8. The other sentinel, \<open>'N/A'\<close>, is written as it is.\<close>

definition unknown :: string where
  "unknown = [CHR 0xE6, CHR 0x9C, CHR 0xAA, CHR 0xE7, CHR 0x9F, CHR 0xA5]"

subsection \<open>Decimal text of integers\<close>

definition digit_char :: "nat \<Rightarrow> char" where
  "digit_char d = ''0123456789'' ! d"

fun show_nat :: "nat \<Rightarrow> string" where
  "show_nat n = (if n < 10 then [digit_char n] else show_nat (n div 10) @ [digit_char (n mod 10)])"

declare show_nat.simps [simp del]

text \<open>\<open>str(i)\<close> and \<open>f"{i}"\<close> for an integer.\<close>

definition show_int :: "int \<Rightarrow> string" where
  "show_int i = (if i < 0 then CHR ''-'' # show_nat (nat (- i)) else show_nat (nat i))"

text \<open>\<open>f"{i:02d}"\<close>: zero padding to width two; the sign counts towards the width, so a
  negative number is never padded.\<close>

definition fmt_02d :: "int \<Rightarrow> string" where
  "fmt_02d i = (if i < 0 then show_int i
                else replicate (2 - length (show_nat (nat i))) (CHR ''0'') @ show_nat (nat i))"

subsection \<open>\<open>str.isdigit\<close>, \<open>int\<close> and the text of an integer\<close>










section \<open>The formatters\<close>

text \<open>
  \<open>format_duration\<close>: the comparison \<open>seconds == 0\<close> is false for \<open>None\<close> and for a string, and
  \<open>divmod\<close> then raises \<open>TypeError\<close>. On integers \<open>divmod\<close> is floor division, which is
  \<open>div\<close> and \<open>mod\<close> of HOL for the positive divisor 60.
\<close>

fun format_duration :: "pyval \<Rightarrow> py_error + string" where
  "format_duration (VInt seconds) =
     (if seconds = 0 then Inr ''N/A''
      else
        let minutes = seconds div 60; seconds' = seconds mod 60;
            hours = minutes div 60; minutes' = minutes mod 60
        in if hours > 0
           then Inr (show_int hours @ '':'' @ fmt_02d minutes' @ '':'' @ fmt_02d seconds')
           else Inr (show_int minutes' @ '':'' @ fmt_02d seconds'))"
| "format_duration VNone = Inl TypeError"
| "format_duration (VStr s) = Inl TypeError"

text \<open>
  \<open>format_timestamp\<close>: \<open>datetime.fromtimestamp(t).strftime(...)\<close> is the library's and depends on
  the local time zone; it is the parameter \<open>strftime_local\<close>, which may raise (the library
  refuses timestamps outside the years it can represent).
\<close>

fun format_timestamp :: "(int \<Rightarrow> py_error + string) \<Rightarrow> pyval \<Rightarrow> py_error + string" where
  "format_timestamp strftime_local (VInt timestamp) =
     (if timestamp = 0 then Inr unknown else strftime_local timestamp)"
| "format_timestamp strftime_local VNone = Inl TypeError"
| "format_timestamp strftime_local (VStr s) = Inl TypeError"






section \<open>The listing fetcher\<close>

text \<open>
  One request of \<open>get_popular_videos\<close> ends in one of three ways: \<open>requests\<close> raises (the
  connection, the time limit, or \<open>raise_for_status\<close>), something else raises while the body
  is decoded or its keys are read, or the envelope is there with its \<open>code\<close> and its
  \<open>data.list\<close>. The session is a function of the page size and the page number: a run asks
  for each page once.
\<close>

datatype 'a page_response = RequestException | OtherException | Envelope int "'a list"

text \<open>The body of the \<open>for\<close> loop over the page numbers; every \<open>break\<close> returns what has been
  accumulated.\<close>

fun fetch_pages :: "(int \<Rightarrow> 'a page_response) \<Rightarrow> int list \<Rightarrow> 'a list \<Rightarrow> 'a list" where
  "fetch_pages get [] all_videos = all_videos"
| "fetch_pages get (page # pages) all_videos =
     (case get page of
        RequestException \<Rightarrow> all_videos
      | OtherException \<Rightarrow> all_videos
      | Envelope code videos \<Rightarrow>
          if code \<noteq> 0 then all_videos
          else if videos = [] then all_videos
          else fetch_pages get pages (all_videos @ videos))"

text \<open>\<open>range(page_number, page_number + max_pages)\<close> is the list of integers
  \<open>[page_number..page_number + max_pages - 1]\<close>.\<close>

definition get_popular_videos ::
  "(int \<Rightarrow> int \<Rightarrow> 'a page_response) \<Rightarrow> int \<Rightarrow> int \<Rightarrow> int \<Rightarrow> 'a list" where
  "get_popular_videos session page_size page_number max_pages =
     fetch_pages (session page_size) [page_number..page_number + max_pages - 1] []"

text \<open>What a page contributes, and whether the loop goes on after it.\<close>

fun page_items :: "'a page_response \<Rightarrow> 'a list" where
  "page_items (Envelope code videos) = videos"
| "page_items RequestException = []"
| "page_items OtherException = []"

fun page_continues :: "'a page_response \<Rightarrow> bool" where
  "page_continues (Envelope code videos) = (code = 0 \<and> videos \<noteq> [])"
| "page_continues RequestException = False"
| "page_continues OtherException = False"

section \<open>The two sub-fetches of one item\<close>

text \<open>
  The scrape: the request raises, or there is a page text. \<open>re.search\<close> is the library's: it is
  the parameter \<open>re_search\<close>, which for a pattern and a text gives the six groups of the first
  match, or nothing. The two patterns of the source are tried in their order.
\<close>

datatype web_response = WebException | WebPage string

datatype scrape_pattern = PatternExact | PatternLoose

type_synonym groups = "string \<times> string \<times> string \<times> string \<times> string \<times> string"

definition patterns :: "scrape_pattern list" where
  "patterns = [PatternExact, PatternLoose]"

text \<open>\<open>s.replace(',', '')\<close>.\<close>

definition remove_commas :: "string \<Rightarrow> string" where
  "remove_commas s = filter (\<lambda>c. c \<noteq> CHR '','') s"

definition na_stats :: pydict where
  "na_stats = [''play_count'' \<mapsto> VStr ''N/A'', ''danmaku_count'' \<mapsto> VStr ''N/A'',
               ''like_count'' \<mapsto> VStr ''N/A'', ''coin_count'' \<mapsto> VStr ''N/A'',
               ''favorite_count'' \<mapsto> VStr ''N/A'', ''share_count'' \<mapsto> VStr ''N/A'']"

fun search_patterns ::
  "(scrape_pattern \<Rightarrow> string \<Rightarrow> groups option) \<Rightarrow> scrape_pattern list \<Rightarrow> string \<Rightarrow> pydict" where
  "search_patterns re_search [] text = na_stats"
| "search_patterns re_search (pattern # rest) text =
     (case re_search pattern text of
        Some (g1, g2, g3, g4, g5, g6) \<Rightarrow>
          [''play_count'' \<mapsto> VStr (remove_commas g1),
           ''danmaku_count'' \<mapsto> VStr (remove_commas g2),
           ''like_count'' \<mapsto> VStr (remove_commas g3),
           ''coin_count'' \<mapsto> VStr (remove_commas g4),
           ''favorite_count'' \<mapsto> VStr (remove_commas g5),
           ''share_count'' \<mapsto> VStr (remove_commas g6)]
      | None \<Rightarrow> search_patterns re_search rest text)"

definition get_video_stats_from_web ::
  "(scrape_pattern \<Rightarrow> string \<Rightarrow> groups option) \<Rightarrow> web_response \<Rightarrow> pydict" where
  "get_video_stats_from_web re_search response =
     (case response of
        WebException \<Rightarrow> na_stats
      | WebPage text \<Rightarrow> search_patterns re_search patterns text)"

text \<open>
  The structured detail request: anything in the \<open>try\<close> block raises (the request, the decoding,
  a missing \<open>code\<close>, \<open>data\<close> or \<open>stat\<close>), or the envelope is there with its \<open>code\<close>, the
  dictionary \<open>data['data']['stat']\<close> and the dictionary \<open>data['data']\<close>.
\<close>

datatype api_response = ApiException | ApiEnvelope int pydict pydict

definition get_video_stats_from_api :: "api_response \<Rightarrow> pydict" where
  "get_video_stats_from_api response =
     (case response of
        ApiException \<Rightarrow> Map.empty
      | ApiEnvelope code stat data \<Rightarrow>
          if code = 0 then
            [''view'' \<mapsto> dict_get stat ''view'' (VInt 0),
             ''danmaku'' \<mapsto> dict_get stat ''danmaku'' (VInt 0),
             ''like'' \<mapsto> dict_get stat ''like'' (VInt 0),
             ''coin'' \<mapsto> dict_get stat ''coin'' (VInt 0),
             ''favorite'' \<mapsto> dict_get stat ''favorite'' (VInt 0),
             ''share'' \<mapsto> dict_get stat ''share'' (VInt 0),
             ''reply'' \<mapsto> dict_get stat ''reply'' (VInt 0),
             ''duration'' \<mapsto> dict_get data ''duration'' (VInt 0),
             ''pubdate'' \<mapsto> dict_get data ''pubdate'' (VInt 0),
             ''cid'' \<mapsto> dict_get data ''cid'' (VInt 0),
             ''tname'' \<mapsto> dict_get data ''tname'' (VStr [])]
          else Map.empty)"

text \<open>
  Everything outside the program that one run meets after the listing: the answers to the two
  detail requests of the item at a rank, the regular expression engine, the library's local
  time formatting and the clock.
\<close>

record world =
  web_get :: "int \<Rightarrow> string \<Rightarrow> web_response"
  api_get :: "int \<Rightarrow> string \<Rightarrow> api_response"
  re_search :: "scrape_pattern \<Rightarrow> string \<Rightarrow> groups option"
  strftime_local :: "int \<Rightarrow> py_error + string"
  now :: "int \<Rightarrow> string"

text \<open>\<open>{**stats, **api_data}\<close>: the keys of the second dictionary win.\<close>

definition get_video_details :: "world \<Rightarrow> int \<Rightarrow> string \<Rightarrow> pydict" where
  "get_video_details w i bvid =
     (let stats = get_video_stats_from_web (re_search w) (web_get w i bvid);
          api_data = get_video_stats_from_api (api_get w i bvid)
      in stats ++ api_data)"

section \<open>Enrichment\<close>

text \<open>
  An item of the listing, as the specification's RawListItem: the keys the source reads with
  \<open>video[...]\<close> are fields, the keys it reads with \<open>video.get\<close> may be absent.
\<close>

record owner_ref =
  name :: pyval
  mid :: pyval
  face :: pyval

record raw_item =
  title :: string
  desc :: "pyval option"
  bvid :: string
  short_link_v2 :: "pyval option"
  pic :: "pyval option"
  first_frame :: "pyval option"
  pub_location :: "pyval option"
  owner :: owner_ref

definition item_get :: "pyval option \<Rightarrow> pyval \<Rightarrow> pyval" where
  "item_get field dflt = (case field of None \<Rightarrow> dflt | Some v \<Rightarrow> v)"

text \<open>The six counters that both sub-fetches report.\<close>

definition counter_keys :: "string set" where
  "counter_keys = set [''play_count'', ''danmaku_count'', ''like_count'', ''coin_count'',
     ''favorite_count'', ''share_count'']"

text \<open>
  The dictionary display of the loop of \<open>run_analysis\<close>, for the item at rank \<open>i\<close>, its
  details and its two formatted values.
\<close>

definition make_enriched_video ::
  "world \<Rightarrow> int \<Rightarrow> raw_item \<Rightarrow> pydict \<Rightarrow> string \<Rightarrow> string \<Rightarrow> pydict" where
  "make_enriched_video w i video details duration_formatted publish_time =
    [''rank'' \<mapsto> VInt i,
     ''title'' \<mapsto> VStr (title video),
     ''desc'' \<mapsto> item_get (desc video) (VStr []),
     ''bvid'' \<mapsto> VStr (bvid video),
     ''short_link'' \<mapsto> item_get (short_link_v2 video) (VStr []),
     ''pic'' \<mapsto> item_get (pic video) (VStr []),
     ''first_frame'' \<mapsto> item_get (first_frame video) (VStr []),
     ''pub_location'' \<mapsto> item_get (pub_location video) (VStr []),
     ''owner_name'' \<mapsto> name (owner video),
     ''owner_mid'' \<mapsto> mid (owner video),
     ''owner_face'' \<mapsto> face (owner video),
     ''play_count'' \<mapsto>
        dict_get details ''play_count'' (dict_get details ''view'' (VStr ''N/A'')),
     ''danmaku_count'' \<mapsto>
        dict_get details ''danmaku_count'' (dict_get details ''danmaku'' (VStr ''N/A'')),
     ''like_count'' \<mapsto>
        dict_get details ''like_count'' (dict_get details ''like'' (VStr ''N/A'')),
     ''coin_count'' \<mapsto>
        dict_get details ''coin_count'' (dict_get details ''coin'' (VStr ''N/A'')),
     ''favorite_count'' \<mapsto>
        dict_get details ''favorite_count'' (dict_get details ''favorite'' (VStr ''N/A'')),
     ''share_count'' \<mapsto>
        dict_get details ''share_count'' (dict_get details ''share'' (VStr ''N/A'')),
     ''reply_count'' \<mapsto> dict_get details ''reply'' (VStr ''N/A''),
     ''duration'' \<mapsto> dict_get details ''duration'' (VInt 0),
     ''duration_formatted'' \<mapsto> VStr duration_formatted,
     ''publish_time'' \<mapsto> VStr publish_time,
     ''tname'' \<mapsto> dict_get details ''tname'' (VStr unknown),
     ''fetch_time'' \<mapsto> VStr (now w i)]"

text \<open>
  The body of the loop of \<open>run_analysis\<close> for the item at rank \<open>i\<close>. The dictionary display is
  evaluated in the order it is written, so \<open>format_duration\<close> raises before \<open>format_timestamp\<close>;
  nothing in \<open>run_analysis\<close> catches either.
\<close>

definition enrich :: "world \<Rightarrow> int \<Rightarrow> raw_item \<Rightarrow> py_error + pydict" where
  "enrich w i video =
     (let details = get_video_details w i (bvid video) in
      case format_duration (dict_get details ''duration'' (VInt 0)) of
        Inl e \<Rightarrow> Inl e
      | Inr duration_formatted \<Rightarrow>
          (case format_timestamp (strftime_local w) (dict_get details ''pubdate'' (VInt 0)) of
             Inl e \<Rightarrow> Inl e
           | Inr publish_time \<Rightarrow>
               Inr (make_enriched_video w i video details duration_formatted publish_time)))"

definition enriched_keys :: "string set" where
  "enriched_keys = set [''rank'', ''title'', ''desc'', ''bvid'', ''short_link'', ''pic'',
     ''first_frame'', ''pub_location'', ''owner_name'', ''owner_mid'', ''owner_face'',
     ''play_count'', ''danmaku_count'', ''like_count'', ''coin_count'', ''favorite_count'',
     ''share_count'', ''reply_count'', ''duration'', ''duration_formatted'', ''publish_time'',
     ''tname'', ''fetch_time'']"

text \<open>\<open>for i, video in enumerate(videos, 1)\<close>, appending each record to \<open>enriched_videos\<close>.\<close>

fun enrich_loop :: "world \<Rightarrow> int \<Rightarrow> raw_item list \<Rightarrow> pydict list \<Rightarrow> py_error + pydict list" where
  "enrich_loop w i [] enriched_videos = Inr enriched_videos"
| "enrich_loop w i (video # videos) enriched_videos =
     (case enrich w i video of
        Inl e \<Rightarrow> Inl e
      | Inr enriched_video \<Rightarrow> enrich_loop w (i + 1) videos (enriched_videos @ [enriched_video]))"

text \<open>\<open>run_analysis\<close> from the listing to the enriched records; with an empty listing it
  returns before the loop (\<open>None\<close>).\<close>

definition run_analysis ::
  "(int \<Rightarrow> int \<Rightarrow> raw_item page_response) \<Rightarrow> world \<Rightarrow> int \<Rightarrow> int \<Rightarrow> int
     \<Rightarrow> py_error + pydict list option" where
  "run_analysis session w page_size start_page max_pages =
     (let videos = get_popular_videos session page_size start_page max_pages in
      if videos = [] then Inr None
      else case enrich_loop w 1 videos [] of
             Inl e \<Rightarrow> Inl e
           | Inr enriched_videos \<Rightarrow> Inr (Some enriched_videos))"

text \<open>
  A structured answer whose duration and publish timestamp, where it gives them, are integers as
  the formatters' signatures declare, the timestamp one the library's formatter accepts.
\<close>

fun succeeds :: "py_error + 'a \<Rightarrow> bool" where
  "succeeds (Inr x) = True"
| "succeeds (Inl e) = False"

definition int_field :: "pydict \<Rightarrow> string \<Rightarrow> bool" where
  "int_field d k = (case d k of None \<Rightarrow> True | Some (VInt n) \<Rightarrow> True | Some v \<Rightarrow> False)"

definition time_field :: "(int \<Rightarrow> py_error + string) \<Rightarrow> pydict \<Rightarrow> string \<Rightarrow> bool" where
  "time_field fmt d k =
     (case d k of
        None \<Rightarrow> True
      | Some (VInt t) \<Rightarrow> t = 0 \<or> succeeds (fmt t)
      | Some v \<Rightarrow> False)"

fun typed_answer :: "(int \<Rightarrow> py_error + string) \<Rightarrow> api_response \<Rightarrow> bool" where
  "typed_answer fmt ApiException = True"
| "typed_answer fmt (ApiEnvelope code stat data) =
     (code \<noteq> 0 \<or> (int_field data ''duration'' \<and> time_field fmt data ''pubdate''))"

section \<open>The tabular export\<close>

text \<open>
  \<open>csv.DictWriter\<close> with the default dialect: fields joined by commas, a row ended by
  carriage return and line feed, a field quoted when it holds a comma, a double quote, a carriage
  return or a line feed, the double quotes inside doubled. A value that is \<open>None\<close> is written as
  the empty field, a string as it is, anything else as \<open>str\<close> of it. A row whose only field is
  empty is written as a pair of quotes.
\<close>

definition export_fields :: "string list" where
  "export_fields = [''rank'', ''title'', ''owner_name'', ''play_count'', ''danmaku_count'',
     ''like_count'', ''coin_count'', ''favorite_count'', ''share_count'', ''reply_count'',
     ''duration_formatted'', ''publish_time'', ''bvid'', ''pub_location'', ''tname'']"

fun csv_value :: "pyval \<Rightarrow> string" where
  "csv_value VNone = []"
| "csv_value (VStr s) = s"
| "csv_value (VInt i) = show_int i"

definition dquote :: char where
  "dquote = CHR 0x22"

definition special :: "char \<Rightarrow> bool" where
  "special c = (c = CHR '','' \<or> c = dquote \<or> c = CHR 0x0D \<or> c = CHR 0x0A)"

fun double_quotes :: "string \<Rightarrow> string" where
  "double_quotes [] = []"
| "double_quotes (c # s) = (if c = dquote then dquote # dquote # double_quotes s
                            else c # double_quotes s)"

definition csv_field :: "string \<Rightarrow> string" where
  "csv_field s = (if list_ex special s then dquote # double_quotes s @ [dquote] else s)"

fun join_fields :: "string list \<Rightarrow> string" where
  "join_fields [] = []"
| "join_fields [f] = f"
| "join_fields (f # g # fs) = f @ CHR '','' # join_fields (g # fs)"

definition crlf :: string where
  "crlf = [CHR 0x0D, CHR 0x0A]"

definition csv_row :: "string list \<Rightarrow> string" where
  "csv_row cells =
     (if cells = [[]] then [dquote, dquote] @ crlf
      else join_fields (map csv_field cells) @ crlf)"

text \<open>\<open>{field: video.get(field, '') for field in export_fields}\<close>.\<close>

definition export_video :: "pydict \<Rightarrow> pydict" where
  "export_video video =
     (\<lambda>field. if field \<in> set export_fields then Some (dict_get video field (VStr [])) else None)"

text \<open>\<open>writerow\<close> of a dictionary: \<open>row.get(key, '')\<close> for every field name, in their order.\<close>

definition dict_row :: "pydict \<Rightarrow> string list" where
  "dict_row row = map (\<lambda>key. csv_value (dict_get row key (VStr []))) export_fields"

definition csv_text :: "pydict list \<Rightarrow> string" where
  "csv_text videos =
     csv_row export_fields @ concat (map (\<lambda>video. csv_row (dict_row (export_video video))) videos)"

text \<open>
  The files of the run are a map from names to contents. The file is opened with the encoding
  \<open>utf-8-sig\<close>, which puts the three bytes of the byte order mark before the text. Whether the
  file can be opened for writing is the parameter \<open>can_open\<close>: when it cannot, the exception is
  caught and reported, and no file is written. An absent or empty file name is replaced by one
  made from the time stamp \<open>stamp\<close>.
\<close>

type_synonym files = "string \<rightharpoonup> string"

definition utf8_sig :: string where
  "utf8_sig = [CHR 0xEF, CHR 0xBB, CHR 0xBF]"

definition csv_name :: "string \<Rightarrow> string \<Rightarrow> string" where
  "csv_name stamp filename =
     (if filename = [] then ''bilibili_hot_videos_'' @ stamp @ ''.csv'' else filename)"

definition export_to_csv ::
  "(string \<Rightarrow> bool) \<Rightarrow> string \<Rightarrow> files \<Rightarrow> pydict list \<Rightarrow> string \<Rightarrow> files" where
  "export_to_csv can_open stamp fs videos filename =
     (if videos \<noteq> [] then
        (if can_open (csv_name stamp filename)
         then fs(csv_name stamp filename \<mapsto> utf8_sig @ csv_text videos)
         else fs)
      else fs)"

section \<open>The summary block of the report\<close>







text \<open>The shape \<open>SS\<close> (and \<open>MM\<close>) of the specification: exactly two decimal digits.\<close>

definition two_digits :: "int \<Rightarrow> string" where
  "two_digits x = [digit_char (nat x div 10), digit_char (nat x mod 10)]"

text \<open>The header row of the tabular file, as text.\<close>

definition header_line :: string where
  "header_line = ''rank,title,owner_name,play_count,danmaku_count,like_count,coin_count,favorite_count,share_count,reply_count,duration_formatted,publish_time,bvid,pub_location,tname'' @ crlf"

section \<open>Reading the tabular file back\<close>











section \<open>Concrete inputs\<close>

text \<open>A listing of three pages: two items, then an envelope with an error code, then one item.\<close>

definition demo_session :: "int \<Rightarrow> int \<Rightarrow> string page_response" where
  "demo_session page_size page =
     (if page = 1 then Envelope 0 [''BV1'', ''BV2'']
      else if page = 2 then Envelope (- 412) [''BVx'']
      else if page = 3 then Envelope 0 [''BV3'']
      else RequestException)"

text \<open>A field of the record a computation returns, when it returns one.\<close>

fun field_of :: "py_error + pydict \<Rightarrow> string \<Rightarrow> pyval option" where
  "field_of (Inr r) k = r k"
| "field_of (Inl e) k = None"

text \<open>An item of the listing, a stand-in for the library's time formatting, and four worlds:
  one where both sub-fetches of every item fail, one where only the scrape fails, one whose
  structured answers are empty, and one whose structured answers carry a null duration.\<close>

definition demo_item :: raw_item where
  "demo_item = \<lparr>title = ''A video'', desc = None, bvid = ''BV1xx411c7mD'',
     short_link_v2 = None, pic = None, first_frame = None, pub_location = Some (VStr ''Shanghai''),
     owner = \<lparr>name = VStr ''up'', mid = VInt 7, face = VStr ''f.jpg''\<rparr>\<rparr>"

definition demo_strftime :: "int \<Rightarrow> py_error + string" where
  "demo_strftime t = (if 0 \<le> t \<and> t < 253402300800 then Inr ''2023-11-14 22:13:20''
                      else Inl OverflowError)"

definition offline_world :: world where
  "offline_world = \<lparr>web_get = (\<lambda>i b. WebException), api_get = (\<lambda>i b. ApiException),
     re_search = (\<lambda>p t. None), strftime_local = demo_strftime,
     now = (\<lambda>i. ''2024-05-01 12:00:00'')\<rparr>"

definition scrape_down_world :: world where
  "scrape_down_world = offline_world \<lparr>api_get :=
     (\<lambda>i b. ApiEnvelope 0 [''view'' \<mapsto> VInt 4000, ''reply'' \<mapsto> VInt 12]
                [''duration'' \<mapsto> VInt 65, ''pubdate'' \<mapsto> VInt 1700000000,
                 ''tname'' \<mapsto> VStr ''music''])\<rparr>"

definition bare_world :: world where
  "bare_world = offline_world \<lparr>api_get := (\<lambda>i b. ApiEnvelope 0 Map.empty Map.empty)\<rparr>"

definition null_duration_world :: world where
  "null_duration_world = offline_world \<lparr>api_get :=
     (\<lambda>i b. ApiEnvelope 0 Map.empty [''duration'' \<mapsto> VNone])\<rparr>"

definition demo_listing :: "int \<Rightarrow> int \<Rightarrow> raw_item page_response" where
  "demo_listing page_size page =
     (if page = 1 then Envelope 0 [demo_item, demo_item\<lparr>bvid := ''BV2''\<rparr>] else Envelope 0 [])"



text \<open>Four records with the play counts 100, 200, \<open>'N/A'\<close> and 300, as strings and as
  integers.\<close>

definition demo_plays :: "pydict list" where
  "demo_plays = [[''play_count'' \<mapsto> VStr ''100''], [''play_count'' \<mapsto> VStr ''200''],
                 [''play_count'' \<mapsto> VStr ''N/A''], [''play_count'' \<mapsto> VStr ''300'']]"



section \<open>Facts about the formatters\<close>

lemma show_nat_small: "n < 10 \<Longrightarrow> show_nat n = [digit_char n]"
  by (simp add: show_nat.simps)

lemma show_nat_two: "10 \<le> n \<Longrightarrow> n < 100 \<Longrightarrow> show_nat n = [digit_char (n div 10), digit_char (n mod 10)]"
  by (subst show_nat.simps) (simp add: show_nat_small)

lemma fmt_02d_two_digits:
  assumes "0 \<le> x" and "x < 100"
  shows "fmt_02d x = two_digits x"
proof (cases "nat x < 10")
  case True
  then show ?thesis
    using assms by (simp add: fmt_02d_def two_digits_def show_nat_small digit_char_def)
next
  case False
  then have "10 \<le> nat x" "nat x < 100"
    using assms by auto
  then show ?thesis
    using assms by (simp add: fmt_02d_def two_digits_def show_nat_two)
qed

lemma format_duration_minutes:
  assumes "0 < s" and "s < 3600"
  shows "format_duration (VInt s) = Inr (show_int (s div 60) @ '':'' @ two_digits (s mod 60))"
proof -
  have m: "s div 60 < 60" "0 \<le> s div 60"
    using assms by auto
  then have h: "s div 60 div 60 = 0" "s div 60 mod 60 = s div 60"
    by auto
  have "fmt_02d (s mod 60) = two_digits (s mod 60)"
    by (rule fmt_02d_two_digits) auto
  then show ?thesis
    using assms h by (simp add: Let_def)
qed

lemma format_duration_hours:
  assumes "3600 \<le> s"
  shows "format_duration (VInt s) =
    Inr (show_int (s div 3600) @ '':'' @ two_digits (s div 60 mod 60) @ '':'' @ two_digits (s mod 60))"
proof -
  have d: "s div 60 div 60 = s div 3600"
    by (simp add: div_mult2_eq [symmetric])
  have "1 \<le> s div 3600"
    using assms by (simp add: pos_imp_zdiv_pos_iff)
  then have pos: "0 < s div 60 div 60"
    using d by simp
  have a: "fmt_02d (s mod 60) = two_digits (s mod 60)"
    by (rule fmt_02d_two_digits) auto
  have b: "fmt_02d (s div 60 mod 60) = two_digits (s div 60 mod 60)"
    by (rule fmt_02d_two_digits) auto
  show ?thesis
    using assms pos a b d by (simp add: Let_def)
qed

text \<open>
  Claim C9. The duration formatter returns \<open>'N/A'\<close> for 0 seconds; for a duration of less than
  an hour it returns the minutes, a colon and the seconds as two digits (\<open>M:SS\<close>, 65 gives
  \<open>1:05\<close>); from one hour on it returns the hours, the minutes as two digits and the seconds as
  two digits (\<open>H:MM:SS\<close>, 3665 gives \<open>1:01:05\<close>).
\<close>

theorem format_duration_shape:
  "format_duration (VInt 0) = Inr ''N/A''
   \<and> format_duration (VInt 65) = Inr ''1:05''
   \<and> format_duration (VInt 3665) = Inr ''1:01:05''
   \<and> (\<forall>s. 0 < s \<and> s < 3600 \<longrightarrow>
         format_duration (VInt s) = Inr (show_int (s div 60) @ '':'' @ two_digits (s mod 60)))
   \<and> (\<forall>s. 3600 \<le> s \<longrightarrow>
         format_duration (VInt s) =
           Inr (show_int (s div 3600) @ '':'' @ two_digits (s div 60 mod 60) @ '':''
                @ two_digits (s mod 60)))"
proof -
  have a: "format_duration (VInt 0) = Inr ''N/A''"
    by simp
  have b: "format_duration (VInt 65) = Inr ''1:05''"
    by code_simp
  have c: "format_duration (VInt 3665) = Inr ''1:01:05''"
    by code_simp
  show ?thesis
    using a b c format_duration_minutes format_duration_hours by blast
qed

theorem format_duration_shape_witness:
  "(0::int) < 754 \<and> (754::int) < 3600 \<and> format_duration (VInt 754) = Inr ''12:34''
   \<and> (3600::int) \<le> 45296 \<and> format_duration (VInt 45296) = Inr ''12:34:56''"
proof -
  have a: "format_duration (VInt 754) = Inr (show_int (754 div 60) @ '':'' @ two_digits (754 mod 60))"
    using format_duration_shape by (simp del: format_duration.simps)
  have b: "format_duration (VInt 45296) =
      Inr (show_int (45296 div 3600) @ '':'' @ two_digits (45296 div 60 mod 60) @ '':''
           @ two_digits (45296 mod 60))"
    using format_duration_shape by (simp del: format_duration.simps)
  have c: "show_int (754 div 60) @ '':'' @ two_digits (754 mod 60) = ''12:34''"
    by code_simp
  have d: "show_int (45296 div 3600) @ '':'' @ two_digits (45296 div 60 mod 60) @ '':''
           @ two_digits (45296 mod 60) = ''12:34:56''"
    by code_simp
  show ?thesis
    using a b c d by (simp del: format_duration.simps)
qed

section \<open>Facts about the listing fetcher\<close>

lemma fetch_pages_takeWhile:
  "fetch_pages get pages acc =
     acc @ concat (map (\<lambda>p. page_items (get p)) (takeWhile (\<lambda>p. page_continues (get p)) pages))"
proof (induction pages arbitrary: acc)
  case Nil
  show ?case by simp
next
  case (Cons page pages)
  show ?case
  proof (cases "get page")
    case (Envelope code videos)
    then show ?thesis using Cons.IH by simp
  qed simp_all
qed

lemma length_concat_bound:
  assumes "\<And>x. length (f x) \<le> b"
  shows "length (concat (map f xs)) \<le> b * length xs"
proof (induction xs)
  case Nil
  show ?case by simp
next
  case (Cons x xs)
  have "length (f x) \<le> b" by (rule assms)
  then show ?case using Cons.IH by simp
qed

lemma length_upto_pages: "1 \<le> m \<Longrightarrow> length [p..p + m - 1] = nat m"
  by simp

text \<open>
  Claim C6. For a page size from 1 to 100, a start page of at least 1 and at least one page to
  fetch, and when no page of the listing holds more items than the page size, the fetcher returns
  at most page size times page count items, and what it returns is the concatenation, in the
  order of the requests, of the pages it fetched before it stopped, each page in its own order.
\<close>

theorem listing_bounded_in_page_order:
  assumes "1 \<le> page_size" and "page_size \<le> 100" and "1 \<le> page_number" and "1 \<le> max_pages"
    and "\<forall>p. length (page_items (session page_size p)) \<le> nat page_size"
  shows "length (get_popular_videos session page_size page_number max_pages)
           \<le> nat page_size * nat max_pages
         \<and> get_popular_videos session page_size page_number max_pages =
             concat (map (\<lambda>p. page_items (session page_size p))
               (takeWhile (\<lambda>p. page_continues (session page_size p))
                  [page_number..page_number + max_pages - 1]))"
proof -
  let ?pages = "[page_number..page_number + max_pages - 1]"
  let ?fetched = "takeWhile (\<lambda>p. page_continues (session page_size p)) ?pages"
  have eq: "get_popular_videos session page_size page_number max_pages =
      concat (map (\<lambda>p. page_items (session page_size p)) ?fetched)"
    by (simp add: get_popular_videos_def fetch_pages_takeWhile)
  have "length (concat (map (\<lambda>p. page_items (session page_size p)) ?fetched))
          \<le> nat page_size * length ?fetched"
    by (rule length_concat_bound) (use assms(5) in blast)
  also have "length ?fetched \<le> length ?pages"
    by (rule length_takeWhile_le)
  also have "length ?pages = nat max_pages"
    using assms(4) by simp
  finally have "length (concat (map (\<lambda>p. page_items (session page_size p)) ?fetched))
      \<le> nat page_size * nat max_pages"
    by simp
  with eq show ?thesis by simp
qed

theorem listing_bounded_in_page_order_witness:
  "length (get_popular_videos demo_session 2 1 3) \<le> 2 * 3
   \<and> get_popular_videos demo_session 2 1 3 = [''BV1'', ''BV2'']"
proof -
  have h: "\<forall>p. length (page_items (demo_session 2 p)) \<le> nat 2"
    by (simp add: demo_session_def)
  have "length (get_popular_videos demo_session 2 1 3) \<le> nat 2 * nat 3
         \<and> get_popular_videos demo_session 2 1 3 =
             concat (map (\<lambda>p. page_items (demo_session 2 p))
               (takeWhile (\<lambda>p. page_continues (demo_session 2 p)) [1..1 + 3 - 1]))"
    by (rule listing_bounded_in_page_order) (use h in simp_all)
  moreover have "concat (map (\<lambda>p. page_items (demo_session 2 p))
               (takeWhile (\<lambda>p. page_continues (demo_session 2 p)) [1..1 + 3 - 1])) = [''BV1'', ''BV2'']"
    by (simp add: demo_session_def upto_rec1)
  ultimately show ?thesis by simp
qed

lemma upto_split_at:
  assumes "0 \<le> k" and "k < m"
  shows "[p..p + m - 1] = [p..p + k - 1] @ (p + k) # [p + k + 1..p + m - 1]"
proof -
  have "[p..p + m - 1] = [p..p + k] @ [p + k + 1..p + m - 1]"
    using assms by (intro upto_split2) auto
  moreover have "[p..p + k] = [p..p + k - 1] @ [p + k]"
    using assms by (intro upto_rec2) auto
  ultimately show ?thesis by simp
qed

text \<open>
  Claim C5. When the envelope of a page of the listing carries a code other than the success
  code, the fetcher stops at that page and returns, without raising, what the earlier pages had
  accumulated: the result of fetching the earlier pages alone, which is every item of every
  earlier page once and in order when each of them was fetched with success.
\<close>

theorem nonsuccess_page_keeps_earlier_pages:
  assumes "0 \<le> k" and "k < max_pages"
    and "session page_size (page_number + k) = Envelope code videos" and "code \<noteq> 0"
  shows "get_popular_videos session page_size page_number max_pages =
           get_popular_videos session page_size page_number k
         \<and> ((\<forall>p. page_number \<le> p \<and> p < page_number + k \<longrightarrow> page_continues (session page_size p)) \<longrightarrow>
             get_popular_videos session page_size page_number max_pages =
               concat (map (\<lambda>p. page_items (session page_size p)) [page_number..page_number + k - 1]))"
proof -
  let ?P = "\<lambda>p. page_continues (session page_size p)"
  let ?early = "[page_number..page_number + k - 1]"
  have stop: "\<not> ?P (page_number + k)"
    using assms(3,4) by simp
  have split: "[page_number..page_number + max_pages - 1] =
      ?early @ (page_number + k) # [page_number + k + 1..page_number + max_pages - 1]"
    using assms(1,2) by (rule upto_split_at)
  have tw: "takeWhile ?P [page_number..page_number + max_pages - 1] = takeWhile ?P ?early"
  proof (cases "\<forall>p\<in>set ?early. ?P p")
    case True
    have all: "takeWhile ?P ?early = ?early"
      using True by (simp add: takeWhile_eq_all_conv)
    have "takeWhile ?P (?early @ (page_number + k) # [page_number + k + 1..page_number + max_pages - 1])
        = ?early @ takeWhile ?P ((page_number + k) # [page_number + k + 1..page_number + max_pages - 1])"
      by (rule takeWhile_append2) (use True in blast)
    also have "\<dots> = ?early"
      using stop by simp
    finally have "takeWhile ?P (?early @ (page_number + k) # [page_number + k + 1..page_number + max_pages - 1])
        = ?early" .
    then show ?thesis
      by (simp only: split all)
  next
    case False
    then obtain q where q: "q \<in> set ?early" "\<not> ?P q" by blast
    have "takeWhile ?P (?early @ (page_number + k) # [page_number + k + 1..page_number + max_pages - 1])
        = takeWhile ?P ?early"
      using q by (rule takeWhile_append1)
    then show ?thesis
      by (simp only: split)
  qed
  have first: "get_popular_videos session page_size page_number max_pages =
           get_popular_videos session page_size page_number k"
    by (simp add: get_popular_videos_def fetch_pages_takeWhile tw)
  have second: "get_popular_videos session page_size page_number max_pages =
      concat (map (\<lambda>p. page_items (session page_size p)) ?early)"
    if "\<forall>p. page_number \<le> p \<and> p < page_number + k \<longrightarrow> ?P p"
  proof -
    have "\<forall>p\<in>set ?early. ?P p"
      using that by auto
    then have all: "takeWhile ?P ?early = ?early"
      by (simp add: takeWhile_eq_all_conv)
    show ?thesis
      by (simp only: get_popular_videos_def fetch_pages_takeWhile tw all append_Nil)
  qed
  show ?thesis using first second by blast
qed

theorem nonsuccess_page_keeps_earlier_pages_witness:
  "demo_session 2 (1 + 1) = Envelope (- 412) [''BVx''] \<and> (- 412 :: int) \<noteq> 0
   \<and> get_popular_videos demo_session 2 1 3 = get_popular_videos demo_session 2 1 1
   \<and> get_popular_videos demo_session 2 1 3 = [''BV1'', ''BV2'']"
proof -
  have r: "demo_session 2 (1 + 1) = Envelope (- 412) [''BVx'']"
    by (simp add: demo_session_def)
  have early: "\<forall>p. 1 \<le> p \<and> p < 1 + 1 \<longrightarrow> page_continues (demo_session 2 p)"
    by (auto simp: demo_session_def)
  have t: "get_popular_videos demo_session 2 1 3 = get_popular_videos demo_session 2 1 1
     \<and> ((\<forall>p. 1 \<le> p \<and> p < 1 + 1 \<longrightarrow> page_continues (demo_session 2 p)) \<longrightarrow>
         get_popular_videos demo_session 2 1 3 =
           concat (map (\<lambda>p. page_items (demo_session 2 p)) [1..1 + 1 - 1]))"
    by (rule nonsuccess_page_keeps_earlier_pages [where code = "- 412" and videos = "[''BVx'']"])
       (use r in simp_all)
  have c: "concat (map (\<lambda>p. page_items (demo_session 2 p)) [1..1 + 1 - 1]) = [''BV1'', ''BV2'']"
    by (simp add: demo_session_def)
  have d: "get_popular_videos demo_session 2 1 1 = [''BV1'', ''BV2'']"
    by (simp add: get_popular_videos_def demo_session_def)
  show ?thesis using r t early c d by simp
qed

section \<open>Facts about enrichment\<close>

lemma enriched_video_dom: "dom (make_enriched_video w i v d df pt) = enriched_keys"
  by (simp add: make_enriched_video_def enriched_keys_def insert_commute)

lemma na_stats_dom: "dom na_stats = counter_keys"
  by (simp add: na_stats_def counter_keys_def insert_commute)

lemma search_patterns_dom: "dom (search_patterns rs ps text) = counter_keys"
proof (induction ps)
  case Nil
  show ?case by (simp add: na_stats_dom)
next
  case (Cons p ps)
  show ?case
  proof (cases "rs p text")
    case None
    then show ?thesis using Cons.IH by simp
  next
    case (Some g)
    obtain g1 g2 g3 g4 g5 g6 where "g = (g1, g2, g3, g4, g5, g6)"
      by (cases g) auto
    then have "search_patterns rs (p # ps) text =
        [''play_count'' \<mapsto> VStr (remove_commas g1),
         ''danmaku_count'' \<mapsto> VStr (remove_commas g2),
         ''like_count'' \<mapsto> VStr (remove_commas g3),
         ''coin_count'' \<mapsto> VStr (remove_commas g4),
         ''favorite_count'' \<mapsto> VStr (remove_commas g5),
         ''share_count'' \<mapsto> VStr (remove_commas g6)]"
      using Some by (simp only: search_patterns.simps option.case prod.case)
    moreover have "dom [''play_count'' \<mapsto> VStr (remove_commas g1),
         ''danmaku_count'' \<mapsto> VStr (remove_commas g2),
         ''like_count'' \<mapsto> VStr (remove_commas g3),
         ''coin_count'' \<mapsto> VStr (remove_commas g4),
         ''favorite_count'' \<mapsto> VStr (remove_commas g5),
         ''share_count'' \<mapsto> VStr (remove_commas g6)] = counter_keys"
      by (simp add: counter_keys_def insert_commute)
    ultimately show ?thesis
      by (simp only:)
  qed
qed

lemma web_stats_dom: "dom (get_video_stats_from_web rs resp) = counter_keys"
  by (cases resp) (simp_all add: get_video_stats_from_web_def search_patterns_dom na_stats_dom)

lemma api_stats_dom:
  "dom (get_video_stats_from_api resp) = {} \<or>
   dom (get_video_stats_from_api resp) = set [''view'', ''danmaku'', ''like'', ''coin'', ''favorite'',
     ''share'', ''reply'', ''duration'', ''pubdate'', ''cid'', ''tname'']"
  by (cases resp) (simp_all add: get_video_stats_from_api_def insert_commute)

lemma counter_keys_cases:
  assumes "k \<in> counter_keys"
  shows "k = ''play_count'' \<or> k = ''danmaku_count'' \<or> k = ''like_count''
    \<or> k = ''coin_count'' \<or> k = ''favorite_count'' \<or> k = ''share_count''"
  using assms by (simp add: counter_keys_def)

lemma api_stats_counter_keys:
  assumes "k \<in> counter_keys"
  shows "get_video_stats_from_api resp k = None"
proof (cases resp)
  case ApiException
  then show ?thesis by (simp add: get_video_stats_from_api_def)
next
  case (ApiEnvelope code stat data)
  show ?thesis
    using counter_keys_cases [OF assms]
    by (elim disjE) (simp_all add: ApiEnvelope get_video_stats_from_api_def)
qed

lemma details_counter:
  assumes "k \<in> counter_keys"
  shows "get_video_details w i b k = get_video_stats_from_web (re_search w) (web_get w i b) k
         \<and> get_video_details w i b k \<noteq> None"
proof -
  have "k \<in> dom (get_video_stats_from_web (re_search w) (web_get w i b))"
    using assms by (simp only: web_stats_dom)
  then have v: "get_video_stats_from_web (re_search w) (web_get w i b) k \<noteq> None"
    by (simp add: dom_def)
  have "get_video_stats_from_api (api_get w i b) k = None"
    using assms by (rule api_stats_counter_keys)
  then show ?thesis
    using v by (simp add: get_video_details_def Let_def map_add_def)
qed

lemma details_other:
  assumes "k \<notin> counter_keys"
  shows "get_video_details w i b k = get_video_stats_from_api (api_get w i b) k"
proof -
  have "k \<notin> dom (get_video_stats_from_web (re_search w) (web_get w i b))"
    using assms by (simp add: web_stats_dom)
  then have "get_video_stats_from_web (re_search w) (web_get w i b) k = None"
    by (simp add: dom_def)
  then show ?thesis
    by (simp add: get_video_details_def Let_def map_add_def split: option.splits)
qed

lemma enrich_Inr_iff:
  "enrich w i video = Inr r \<longleftrightarrow>
     (\<exists>d p. format_duration (dict_get (get_video_details w i (bvid video)) ''duration'' (VInt 0)) = Inr d
        \<and> format_timestamp (strftime_local w)
              (dict_get (get_video_details w i (bvid video)) ''pubdate'' (VInt 0)) = Inr p
        \<and> r = make_enriched_video w i video (get_video_details w i (bvid video)) d p)"
proof (cases "format_duration (dict_get (get_video_details w i (bvid video)) ''duration'' (VInt 0))")
  case (Inl e)
  then show ?thesis by (simp add: enrich_def Let_def)
next
  case d: (Inr d)
  show ?thesis
  proof (cases "format_timestamp (strftime_local w)
              (dict_get (get_video_details w i (bvid video)) ''pubdate'' (VInt 0))")
    case (Inl e)
    then show ?thesis using d by (simp add: enrich_def Let_def)
  next
    case (Inr p)
    then show ?thesis using d by (simp add: enrich_def Let_def eq_commute [of r])
  qed
qed

lemma make_rank: "make_enriched_video w i video details d p ''rank'' = Some (VInt i)"
  by (simp add: make_enriched_video_def)

lemma make_play_count: "make_enriched_video w i video details d p ''play_count'' =
    Some (dict_get details ''play_count'' (dict_get details ''view'' (VStr ''N/A'')))"
  by (simp add: make_enriched_video_def)

lemma make_reply: "make_enriched_video w i video details d p ''reply_count'' =
    Some (dict_get details ''reply'' (VStr ''N/A''))"
  by (simp add: make_enriched_video_def)

lemma make_duration: "make_enriched_video w i video details d p ''duration'' =
    Some (dict_get details ''duration'' (VInt 0))"
  by (simp add: make_enriched_video_def)

lemma make_duration_formatted: "make_enriched_video w i video details d p ''duration_formatted'' = Some (VStr d)"
  by (simp add: make_enriched_video_def)

lemma make_publish_time: "make_enriched_video w i video details d p ''publish_time'' = Some (VStr p)"
  by (simp add: make_enriched_video_def)

lemma make_tname: "make_enriched_video w i video details d p ''tname'' =
    Some (dict_get details ''tname'' (VStr unknown))"
  by (simp add: make_enriched_video_def)

lemma format_duration_int: "\<exists>s. format_duration (VInt n) = Inr s"
  by (simp add: Let_def)

lemmas world_defs = offline_world_def scrape_down_world_def bare_world_def null_duration_world_def
  demo_strftime_def demo_item_def

lemmas enrich_defs = enrich_def get_video_details_def get_video_stats_from_web_def
  get_video_stats_from_api_def na_stats_def dict_get_def map_add_def Let_def

lemma other_keys:
  "''duration'' \<notin> counter_keys" "''pubdate'' \<notin> counter_keys"
  "''reply'' \<notin> counter_keys" "''tname'' \<notin> counter_keys"
  by (simp_all add: counter_keys_def)

lemma details_structured:
  "dict_get (get_video_details w i b) ''duration'' dflt =
     dict_get (get_video_stats_from_api (api_get w i b)) ''duration'' dflt"
  "dict_get (get_video_details w i b) ''pubdate'' dflt =
     dict_get (get_video_stats_from_api (api_get w i b)) ''pubdate'' dflt"
  "dict_get (get_video_details w i b) ''reply'' dflt =
     dict_get (get_video_stats_from_api (api_get w i b)) ''reply'' dflt"
  "dict_get (get_video_details w i b) ''tname'' dflt =
     dict_get (get_video_stats_from_api (api_get w i b)) ''tname'' dflt"
  by (simp_all add: dict_get_def details_other other_keys)

lemma api_failed_empty:
  assumes "resp = ApiException \<or> (\<exists>code stat data. resp = ApiEnvelope code stat data \<and> code \<noteq> 0)"
  shows "get_video_stats_from_api resp = Map.empty"
  using assms by (cases resp) (simp_all add: get_video_stats_from_api_def)

lemma api_ok_fields:
  "get_video_stats_from_api (ApiEnvelope 0 stat data) ''reply'' = Some (dict_get stat ''reply'' (VInt 0))"
  "get_video_stats_from_api (ApiEnvelope 0 stat data) ''duration'' = Some (dict_get data ''duration'' (VInt 0))"
  "get_video_stats_from_api (ApiEnvelope 0 stat data) ''pubdate'' = Some (dict_get data ''pubdate'' (VInt 0))"
  "get_video_stats_from_api (ApiEnvelope 0 stat data) ''tname'' = Some (dict_get data ''tname'' (VStr []))"
  by (simp_all add: get_video_stats_from_api_def)

lemma typed_duration:
  assumes "typed_answer fmt resp"
  shows "\<exists>n. dict_get (get_video_stats_from_api resp) ''duration'' (VInt 0) = VInt n"
proof (cases resp)
  case ApiException
  then show ?thesis by (simp add: get_video_stats_from_api_def dict_get_def)
next
  case (ApiEnvelope code stat data)
  show ?thesis
  proof (cases "code = 0")
    case False
    then show ?thesis
      by (simp add: ApiEnvelope get_video_stats_from_api_def dict_get_def)
  next
    case True
    then have "int_field data ''duration''"
      using assms ApiEnvelope by simp
    then have "\<exists>n. dict_get data ''duration'' (VInt 0) = VInt n"
      by (simp add: int_field_def dict_get_def split: option.splits pyval.splits)
    then show ?thesis
      using True by (simp add: ApiEnvelope api_ok_fields dict_get_def)
  qed
qed

lemma typed_pubdate:
  assumes "typed_answer fmt resp"
  shows "\<exists>t. dict_get (get_video_stats_from_api resp) ''pubdate'' (VInt 0) = VInt t
           \<and> (t = 0 \<or> succeeds (fmt t))"
proof (cases resp)
  case ApiException
  then show ?thesis by (simp add: get_video_stats_from_api_def dict_get_def)
next
  case (ApiEnvelope code stat data)
  show ?thesis
  proof (cases "code = 0")
    case False
    then show ?thesis
      by (simp add: ApiEnvelope get_video_stats_from_api_def dict_get_def)
  next
    case True
    then have "time_field fmt data ''pubdate''"
      using assms ApiEnvelope by simp
    then have "\<exists>t. dict_get data ''pubdate'' (VInt 0) = VInt t \<and> (t = 0 \<or> succeeds (fmt t))"
      by (simp add: time_field_def dict_get_def split: option.splits pyval.splits)
    then show ?thesis
      using True by (simp add: ApiEnvelope api_ok_fields dict_get_def)
  qed
qed

lemma format_timestamp_accepts:
  assumes "t = 0 \<or> succeeds (fmt t)"
  shows "\<exists>p. format_timestamp fmt (VInt t) = Inr p"
proof (cases "t = 0")
  case True
  then show ?thesis by simp
next
  case False
  then have "succeeds (fmt t)" using assms by simp
  then show ?thesis using False by (cases "fmt t") simp_all
qed

lemma enrich_typed:
  assumes "typed_answer (strftime_local w) (api_get w i (bvid video))"
  shows "\<exists>r. enrich w i video = Inr r \<and> dom r = enriched_keys"
proof -
  obtain n where n: "dict_get (get_video_details w i (bvid video)) ''duration'' (VInt 0) = VInt n"
    using typed_duration [OF assms] by (simp only: details_structured) (erule exE)
  obtain t where t: "dict_get (get_video_details w i (bvid video)) ''pubdate'' (VInt 0) = VInt t"
      and acc: "t = 0 \<or> succeeds (strftime_local w t)"
    using typed_pubdate [OF assms] by (simp only: details_structured) (elim exE conjE)
  obtain d where d: "format_duration (VInt n) = Inr d"
    using format_duration_int [of n] by (erule exE)
  obtain p where p: "format_timestamp (strftime_local w) (VInt t) = Inr p"
    using format_timestamp_accepts [of t "strftime_local w", OF acc] by (erule exE)
  have "enrich w i video =
      Inr (make_enriched_video w i video (get_video_details w i (bvid video)) d p)"
    by (simp only: enrich_Inr_iff n t d p) simp
  then show ?thesis
    by (simp add: enriched_video_dom)
qed

lemma enrich_rank:
  assumes "enrich w i video = Inr r"
  shows "r ''rank'' = Some (VInt i)"
proof -
  obtain d p where "r = make_enriched_video w i video (get_video_details w i (bvid video)) d p"
    using assms by (simp only: enrich_Inr_iff) (elim exE conjE)
  then show ?thesis by (simp only: make_rank)
qed

lemma enrich_loop_shape:
  "enrich_loop w i videos acc = Inr rs \<Longrightarrow>
     length rs = length acc + length videos \<and> take (length acc) rs = acc
     \<and> (\<forall>n<length videos. (rs ! (length acc + n)) ''rank'' = Some (VInt (i + int n)))"
proof (induction videos arbitrary: i acc)
  case Nil
  then show ?case by simp
next
  case (Cons video videos)
  from Cons.prems obtain r where r: "enrich w i video = Inr r"
    and rest: "enrich_loop w (i + 1) videos (acc @ [r]) = Inr rs"
    by (cases "enrich w i video") simp_all
  from Cons.IH [OF rest] have len: "length rs = length (acc @ [r]) + length videos"
    and tk: "take (length (acc @ [r])) rs = acc @ [r]"
    and rk: "\<forall>n<length videos. (rs ! (length (acc @ [r]) + n)) ''rank'' = Some (VInt (i + 1 + int n))"
    by simp_all
  have tk': "take (Suc (length acc)) rs = acc @ [r]"
    using tk by simp
  have "take (length acc) rs = take (length acc) (take (Suc (length acc)) rs)"
    by simp
  then have a: "take (length acc) rs = acc"
    by (simp only: tk') simp
  have "rs ! length acc = take (Suc (length acc)) rs ! length acc"
    by simp
  then have at: "rs ! length acc = r"
    by (simp only: tk') simp
  have b: "(rs ! (length acc + n)) ''rank'' = Some (VInt (i + int n))" if "n < length (video # videos)" for n
  proof (cases n)
    case 0
    then show ?thesis using at enrich_rank [OF r] by simp
  next
    case (Suc m)
    then have "m < length videos" using that by simp
    then have "(rs ! (length (acc @ [r]) + m)) ''rank'' = Some (VInt (i + 1 + int m))"
      using rk by simp
    then show ?thesis using Suc by (simp add: add.commute add.left_commute)
  qed
  show ?case
    using len a b by simp
qed

lemma enrich_loop_total:
  "(\<forall>n<length videos. \<exists>r. enrich w (i + int n) (videos ! n) = Inr r) \<Longrightarrow>
     \<exists>rs. enrich_loop w i videos acc = Inr rs"
proof (induction videos arbitrary: i acc)
  case Nil
  show ?case by simp
next
  case (Cons video videos)
  have "\<exists>r. enrich w (i + int 0) ((video # videos) ! 0) = Inr r"
    using Cons.prems [rule_format, of 0] by simp
  then obtain r where r: "enrich w i video = Inr r"
    by simp (erule exE)
  have "\<forall>n<length videos. \<exists>r. enrich w (i + 1 + int n) (videos ! n) = Inr r"
  proof (intro allI impI)
    fix n assume "n < length videos"
    then have "\<exists>r. enrich w (i + int (Suc n)) ((video # videos) ! Suc n) = Inr r"
      using Cons.prems [rule_format, of "Suc n"] by simp
    then show "\<exists>r. enrich w (i + 1 + int n) (videos ! n) = Inr r"
      by (simp add: add.commute add.left_commute)
  qed
  from Cons.IH [OF this] obtain rs where "enrich_loop w (i + 1) videos (acc @ [r]) = Inr rs"
    by (erule exE)
  then show ?case using r by simp
qed

lemma run_analysis_Some:
  "run_analysis session w ps pn mp = Inr (Some rs) \<longleftrightarrow>
     get_popular_videos session ps pn mp \<noteq> []
     \<and> enrich_loop w 1 (get_popular_videos session ps pn mp) [] = Inr rs"
  by (cases "enrich_loop w 1 (get_popular_videos session ps pn mp) []")
     (simp_all add: run_analysis_def Let_def)

text \<open>
  Claim C2, as amended. A run that lists N items and reaches the end of its enrichment loop
  holds exactly N enriched records, the record at position n (from 0) with rank n + 1: the ranks
  are 1 to N in order, without gap or repetition. The loop reaches its end, whatever sub-fetches
  fail, when every structured answer that succeeds carries a duration and a publish timestamp
  that are integers (or absent), the timestamp zero or one the library can format: a failed
  sub-fetch only puts sentinels into the record, and a record is never left out.
\<close>

theorem ranks_follow_listing_order:
  "(\<forall>rs. run_analysis session w page_size start_page max_pages = Inr (Some rs) \<longrightarrow>
       length rs = length (get_popular_videos session page_size start_page max_pages)
       \<and> (\<forall>n<length rs. (rs ! n) ''rank'' = Some (VInt (int n + 1))))
   \<and> (get_popular_videos session page_size start_page max_pages \<noteq> []
       \<and> (\<forall>n<length (get_popular_videos session page_size start_page max_pages).
             typed_answer (strftime_local w)
               (api_get w (int n + 1)
                  (bvid (get_popular_videos session page_size start_page max_pages ! n))))
       \<longrightarrow> (\<exists>rs. run_analysis session w page_size start_page max_pages = Inr (Some rs)
              \<and> length rs = length (get_popular_videos session page_size start_page max_pages)
              \<and> (\<forall>n<length rs. (rs ! n) ''rank'' = Some (VInt (int n + 1)))))"
proof -
  let ?videos = "get_popular_videos session page_size start_page max_pages"
  have shape_len: "length rs = length ?videos"
    if "run_analysis session w page_size start_page max_pages = Inr (Some rs)" for rs
  proof -
    from that have loop: "enrich_loop w 1 ?videos [] = Inr rs"
      by (simp only: run_analysis_Some)
    from enrich_loop_shape [OF loop] show ?thesis
      by simp
  qed
  have shape_rank: "(rs ! n) ''rank'' = Some (VInt (int n + 1))"
    if "run_analysis session w page_size start_page max_pages = Inr (Some rs)"
      and "n < length rs" for rs n
  proof -
    from that(1) have loop: "enrich_loop w 1 ?videos [] = Inr rs"
      by (simp only: run_analysis_Some)
    from enrich_loop_shape [OF loop] that(2) show ?thesis
      by (simp add: add.commute)
  qed
  have runs: "\<exists>rs. run_analysis session w page_size start_page max_pages = Inr (Some rs)"
    if h: "?videos \<noteq> [] \<and> (\<forall>n<length ?videos.
      typed_answer (strftime_local w) (api_get w (int n + 1) (bvid (?videos ! n))))"
  proof -
    have "\<forall>n<length ?videos. \<exists>r. enrich w (1 + int n) (?videos ! n) = Inr r"
    proof (intro allI impI)
      fix n assume "n < length ?videos"
      then have "typed_answer (strftime_local w) (api_get w (1 + int n) (bvid (?videos ! n)))"
        using h by (simp add: add.commute)
      from enrich_typed [OF this]
      show "\<exists>r. enrich w (1 + int n) (?videos ! n) = Inr r"
        by (elim exE conjE) (rule exI)
    qed
    from enrich_loop_total [OF this]
    obtain rs where "enrich_loop w 1 ?videos [] = Inr rs"
      by (erule exE)
    then have "run_analysis session w page_size start_page max_pages = Inr (Some rs)"
      using h by (simp only: run_analysis_Some) simp
    then show ?thesis
      by (rule exI)
  qed
  have first: "\<forall>rs. run_analysis session w page_size start_page max_pages = Inr (Some rs) \<longrightarrow>
       length rs = length ?videos
       \<and> (\<forall>n<length rs. (rs ! n) ''rank'' = Some (VInt (int n + 1)))"
  proof (intro allI impI conjI)
    fix rs
    assume "run_analysis session w page_size start_page max_pages = Inr (Some rs)"
    then show "length rs = length ?videos"
      by (rule shape_len)
  next
    fix rs n
    assume "run_analysis session w page_size start_page max_pages = Inr (Some rs)"
      and "n < length rs"
    then show "(rs ! n) ''rank'' = Some (VInt (int n + 1))"
      by (rule shape_rank)
  qed
  have second: "?videos \<noteq> [] \<and> (\<forall>n<length ?videos.
      typed_answer (strftime_local w) (api_get w (int n + 1) (bvid (?videos ! n))))
       \<longrightarrow> (\<exists>rs. run_analysis session w page_size start_page max_pages = Inr (Some rs)
              \<and> length rs = length ?videos
              \<and> (\<forall>n<length rs. (rs ! n) ''rank'' = Some (VInt (int n + 1))))"
  proof (rule impI)
    assume h: "?videos \<noteq> [] \<and> (\<forall>n<length ?videos.
      typed_answer (strftime_local w) (api_get w (int n + 1) (bvid (?videos ! n))))"
    from runs [OF h] obtain rs
      where r: "run_analysis session w page_size start_page max_pages = Inr (Some rs)"
      by (erule exE)
    have "\<forall>n<length rs. (rs ! n) ''rank'' = Some (VInt (int n + 1))"
      by (intro allI impI) (rule shape_rank [OF r])
    with r shape_len [OF r]
    have "run_analysis session w page_size start_page max_pages = Inr (Some rs)
              \<and> length rs = length ?videos
              \<and> (\<forall>n<length rs. (rs ! n) ''rank'' = Some (VInt (int n + 1)))"
      by (intro conjI)
    then show "\<exists>rs. run_analysis session w page_size start_page max_pages = Inr (Some rs)
              \<and> length rs = length ?videos
              \<and> (\<forall>n<length rs. (rs ! n) ''rank'' = Some (VInt (int n + 1)))"
      by (rule exI [of _ rs])
  qed
  from first second show ?thesis
    by (rule conjI)
qed

lemma demo_listing_videos:
  "get_popular_videos demo_listing 50 1 1 = [demo_item, demo_item\<lparr>bvid := ''BV2''\<rparr>]"
  by (simp add: get_popular_videos_def demo_listing_def)

theorem ranks_follow_listing_order_witness:
  "\<exists>rs. run_analysis demo_listing offline_world 50 1 1 = Inr (Some rs) \<and> length rs = 2
     \<and> (rs ! 0) ''rank'' = Some (VInt 1) \<and> (rs ! 1) ''rank'' = Some (VInt 2)"
proof -
  have typed: "get_popular_videos demo_listing 50 1 1 \<noteq> []
      \<and> (\<forall>n<length (get_popular_videos demo_listing 50 1 1).
      typed_answer (strftime_local offline_world)
        (api_get offline_world (int n + 1) (bvid (get_popular_videos demo_listing 50 1 1 ! n))))"
    by (simp add: offline_world_def demo_listing_videos)
  from ranks_follow_listing_order [of demo_listing offline_world 50 1 1, THEN conjunct2, THEN mp,
      OF typed]
  obtain rs where rs: "run_analysis demo_listing offline_world 50 1 1 = Inr (Some rs)"
    and len: "length rs = length (get_popular_videos demo_listing 50 1 1)"
    and rk: "\<forall>n<length rs. (rs ! n) ''rank'' = Some (VInt (int n + 1))"
    by (elim exE conjE)
  have len2: "length rs = 2"
    using len by (simp add: demo_listing_videos)
  from rk len2 have "(rs ! 0) ''rank'' = Some (VInt 1)" "(rs ! 1) ''rank'' = Some (VInt 2)"
    by simp_all
  with rs len2 show ?thesis by (intro exI [of _ rs]) simp
qed

text \<open>
  The claim as stated fails: in a run that lists two items, a structured answer whose duration
  is JSON null makes \<open>format_duration\<close> raise in the loop, and the run ends with no record
  at all.
\<close>

theorem null_duration_run_keeps_no_record:
  "length (get_popular_videos demo_listing 50 1 1) = 2
   \<and> run_analysis demo_listing null_duration_world 50 1 1 = Inl TypeError"
proof -
  have e: "enrich null_duration_world 1 demo_item = Inl TypeError"
    by (simp add: world_defs enrich_defs)
  show ?thesis
    by (simp add: run_analysis_def demo_listing_videos e)
qed

lemma api_empty_typed:
  assumes "get_video_stats_from_api resp = Map.empty"
  shows "typed_answer fmt resp"
proof (cases resp)
  case ApiException
  then show ?thesis by simp
next
  case (ApiEnvelope code stat data)
  have "code \<noteq> 0"
  proof
    assume "code = 0"
    then have "get_video_stats_from_api resp ''reply'' = Some (dict_get stat ''reply'' (VInt 0))"
      by (simp only: ApiEnvelope api_ok_fields)
    then show False by (simp add: assms)
  qed
  then show ?thesis by (simp add: ApiEnvelope)
qed

lemma make_counter:
  assumes "k \<in> counter_keys" and "details k = Some v"
  shows "make_enriched_video w i video details d p k = Some v"
  using counter_keys_cases [OF assms(1)] assms(2)
  by (elim disjE) (simp_all add: make_enriched_video_def dict_get_def)

lemma na_stats_counter:
  assumes "k \<in> counter_keys"
  shows "na_stats k = Some (VStr ''N/A'')"
  using counter_keys_cases [OF assms]
  by (elim disjE) (simp_all add: na_stats_def)

lemma merged_counter_from_scrape:
  assumes "enrich w i video = Inr r" and "k \<in> counter_keys"
  shows "r k = get_video_stats_from_web (re_search w) (web_get w i (bvid video)) k"
proof -
  obtain d p where r: "r = make_enriched_video w i video (get_video_details w i (bvid video)) d p"
    using assms(1) by (simp only: enrich_Inr_iff) (elim exE conjE)
  have eq: "get_video_details w i (bvid video) k =
      get_video_stats_from_web (re_search w) (web_get w i (bvid video)) k"
    by (rule details_counter [OF assms(2), THEN conjunct1])
  have ne: "get_video_details w i (bvid video) k \<noteq> None"
    by (rule details_counter [OF assms(2), THEN conjunct2])
  from ne obtain v where v: "get_video_details w i (bvid video) k = Some v"
    by (cases "get_video_details w i (bvid video) k") simp_all
  have "r k = Some v"
    by (simp only: r make_counter [of k "get_video_details w i (bvid video)" v, OF assms(2) v])
  then show ?thesis
    using eq v by simp
qed

text \<open>
  Claim C1. The merged value of each of the six shared counters should be the scrape value, or
  the structured value when the scrape value is the \<open>'N/A'\<close> sentinel. The scrape sub-fetch
  returns all six keys in every case, with \<open>'N/A'\<close> where it failed, so the inner \<open>get\<close> of
  \<open>run_analysis\<close> is never reached: for a failed scrape and a structured play count of 4000 the
  merged play count is \<open>'N/A'\<close>, not 4000.
\<close>

theorem scrape_sentinel_hides_structured_value:
  "get_video_stats_from_web (re_search scrape_down_world)
       (web_get scrape_down_world 1 (bvid demo_item)) ''play_count'' = Some (VStr ''N/A'')
   \<and> get_video_stats_from_api (api_get scrape_down_world 1 (bvid demo_item)) ''view''
       = Some (VInt 4000)
   \<and> field_of (enrich scrape_down_world 1 demo_item) ''play_count'' = Some (VStr ''N/A'')"
  by (simp add: world_defs enrich_defs make_enriched_video_def)

text \<open>
  Claim C3, as amended. Building the enriched record returns a record with all of its
  twenty-three fields whenever the structured sub-fetch fails, answers with an error code, or
  answers with a duration and a publish timestamp that are integers (or absent), the timestamp
  zero or one the library can format. When both sub-fetches fail, the record is there with all
  six counters \<open>'N/A'\<close>.
\<close>

theorem enrich_total_on_typed_answers:
  "(typed_answer (strftime_local w) (api_get w i (bvid video)) \<longrightarrow>
      (\<exists>r. enrich w i video = Inr r \<and> dom r = enriched_keys))
   \<and> (get_video_stats_from_web (re_search w) (web_get w i (bvid video)) = na_stats
       \<and> get_video_stats_from_api (api_get w i (bvid video)) = Map.empty \<longrightarrow>
      (\<exists>r. enrich w i video = Inr r \<and> dom r = enriched_keys
          \<and> (\<forall>k\<in>counter_keys. r k = Some (VStr ''N/A''))))"
proof (intro conjI impI)
  assume "typed_answer (strftime_local w) (api_get w i (bvid video))"
  then show "\<exists>r. enrich w i video = Inr r \<and> dom r = enriched_keys"
    by (rule enrich_typed)
next
  assume h: "get_video_stats_from_web (re_search w) (web_get w i (bvid video)) = na_stats
       \<and> get_video_stats_from_api (api_get w i (bvid video)) = Map.empty"
  then have "typed_answer (strftime_local w) (api_get w i (bvid video))"
    by (intro api_empty_typed) simp
  from enrich_typed [OF this] obtain r where r: "enrich w i video = Inr r" "dom r = enriched_keys"
    by (elim exE conjE)
  have "r k = Some (VStr ''N/A'')" if "k \<in> counter_keys" for k
    using merged_counter_from_scrape [OF r(1) that] h na_stats_counter [OF that] by simp
  then show "\<exists>r. enrich w i video = Inr r \<and> dom r = enriched_keys
          \<and> (\<forall>k\<in>counter_keys. r k = Some (VStr ''N/A''))"
    using r by simp
qed

theorem enrich_total_on_typed_answers_witness:
  "typed_answer (strftime_local scrape_down_world) (api_get scrape_down_world 1 (bvid demo_item))
   \<and> (\<exists>r. enrich scrape_down_world 1 demo_item = Inr r \<and> dom r = enriched_keys)
   \<and> get_video_stats_from_web (re_search offline_world) (web_get offline_world 1 (bvid demo_item)) = na_stats
   \<and> get_video_stats_from_api (api_get offline_world 1 (bvid demo_item)) = Map.empty
   \<and> (\<exists>r. enrich offline_world 1 demo_item = Inr r \<and> dom r = enriched_keys
         \<and> r ''play_count'' = Some (VStr ''N/A'') \<and> r ''share_count'' = Some (VStr ''N/A''))"
proof -
  have a: "typed_answer (strftime_local scrape_down_world) (api_get scrape_down_world 1 (bvid demo_item))"
    by (simp add: world_defs int_field_def time_field_def)
  have b: "get_video_stats_from_web (re_search offline_world) (web_get offline_world 1 (bvid demo_item)) = na_stats"
    by (simp add: world_defs get_video_stats_from_web_def)
  have c: "get_video_stats_from_api (api_get offline_world 1 (bvid demo_item)) = Map.empty"
    by (simp add: world_defs get_video_stats_from_api_def)
  have k: "''play_count'' \<in> counter_keys" "''share_count'' \<in> counter_keys"
    by (simp_all add: counter_keys_def)
  from enrich_total_on_typed_answers [of scrape_down_world 1 demo_item] a
  have d: "\<exists>r. enrich scrape_down_world 1 demo_item = Inr r \<and> dom r = enriched_keys"
    by simp
  have "\<exists>r. enrich offline_world 1 demo_item = Inr r \<and> dom r = enriched_keys
         \<and> (\<forall>k\<in>counter_keys. r k = Some (VStr ''N/A''))"
    using enrich_total_on_typed_answers [of offline_world 1 demo_item, THEN conjunct2] b c
    by simp
  then obtain r where "enrich offline_world 1 demo_item = Inr r" "dom r = enriched_keys"
    "\<forall>k\<in>counter_keys. r k = Some (VStr ''N/A'')"
    by (elim exE conjE)
  then have "\<exists>r. enrich offline_world 1 demo_item = Inr r \<and> dom r = enriched_keys
         \<and> r ''play_count'' = Some (VStr ''N/A'') \<and> r ''share_count'' = Some (VStr ''N/A'')"
    using k by (intro exI [of _ r]) simp
  then show ?thesis using a b c d by simp
qed

text \<open>
  The claim as stated fails: a structured answer whose duration is JSON null makes
  \<open>format_duration\<close> raise \<open>TypeError\<close>, which nothing in \<open>run_analysis\<close> catches.
\<close>

theorem null_duration_raises:
  "enrich null_duration_world 1 demo_item = Inl TypeError"
  by (simp add: world_defs enrich_defs)

lemma enrich_structured:
  assumes "enrich w i video = Inr r"
  shows "r ''reply_count'' =
           Some (dict_get (get_video_stats_from_api (api_get w i (bvid video))) ''reply'' (VStr ''N/A''))"
    and "r ''duration'' =
           Some (dict_get (get_video_stats_from_api (api_get w i (bvid video))) ''duration'' (VInt 0))"
    and "\<exists>d. format_duration
              (dict_get (get_video_stats_from_api (api_get w i (bvid video))) ''duration'' (VInt 0)) = Inr d
            \<and> r ''duration_formatted'' = Some (VStr d)"
    and "\<exists>p. format_timestamp (strftime_local w)
              (dict_get (get_video_stats_from_api (api_get w i (bvid video))) ''pubdate'' (VInt 0)) = Inr p
            \<and> r ''publish_time'' = Some (VStr p)"
    and "r ''tname'' =
           Some (dict_get (get_video_stats_from_api (api_get w i (bvid video))) ''tname'' (VStr unknown))"
proof -
  obtain d p where
    d: "format_duration (dict_get (get_video_details w i (bvid video)) ''duration'' (VInt 0)) = Inr d"
    and p: "format_timestamp (strftime_local w)
              (dict_get (get_video_details w i (bvid video)) ''pubdate'' (VInt 0)) = Inr p"
    and r: "r = make_enriched_video w i video (get_video_details w i (bvid video)) d p"
    using assms by (simp only: enrich_Inr_iff) (elim exE conjE)
  show "r ''reply_count'' =
      Some (dict_get (get_video_stats_from_api (api_get w i (bvid video))) ''reply'' (VStr ''N/A''))"
    by (simp only: r make_reply details_structured)
  show "r ''duration'' =
      Some (dict_get (get_video_stats_from_api (api_get w i (bvid video))) ''duration'' (VInt 0))"
    by (simp only: r make_duration details_structured)
  show "r ''tname'' =
      Some (dict_get (get_video_stats_from_api (api_get w i (bvid video))) ''tname'' (VStr unknown))"
    by (simp only: r make_tname details_structured)
  note d' = d [unfolded details_structured]
  note p' = p [unfolded details_structured]
  have "r ''duration_formatted'' = Some (VStr d)"
    by (simp only: r make_duration_formatted)
  with d' show "\<exists>d. format_duration
              (dict_get (get_video_stats_from_api (api_get w i (bvid video))) ''duration'' (VInt 0)) = Inr d
            \<and> r ''duration_formatted'' = Some (VStr d)"
    by (intro exI [of _ d] conjI)
  have "r ''publish_time'' = Some (VStr p)"
    by (simp only: r make_publish_time)
  with p' show "\<exists>p. format_timestamp (strftime_local w)
              (dict_get (get_video_stats_from_api (api_get w i (bvid video))) ''pubdate'' (VInt 0)) = Inr p
            \<and> r ''publish_time'' = Some (VStr p)"
    by (intro exI [of _ p] conjI)
qed

text \<open>
  Claim C8, as amended. In the enriched record the reply count, the duration, the formatted
  duration, the publish time and the category name are computed from the structured sub-fetch
  alone. When that sub-fetch fails or answers with an error code, the reply count is \<open>'N/A'\<close>,
  the duration 0, the formatted duration \<open>'N/A'\<close>, the publish time and the category name the
  ``unknown'' word. When it succeeds and its answer lacks a field, the reply count, the duration
  and the publish timestamp are 0 (formatted as \<open>'N/A'\<close> and ``unknown'') and the category
  name is the empty string.
\<close>

theorem structured_fields_and_their_defaults:
  assumes "enrich w i video = Inr r"
  shows "r ''reply_count'' =
           Some (dict_get (get_video_stats_from_api (api_get w i (bvid video))) ''reply'' (VStr ''N/A''))
    \<and> r ''duration'' =
           Some (dict_get (get_video_stats_from_api (api_get w i (bvid video))) ''duration'' (VInt 0))
    \<and> (\<exists>d. format_duration
              (dict_get (get_video_stats_from_api (api_get w i (bvid video))) ''duration'' (VInt 0)) = Inr d
            \<and> r ''duration_formatted'' = Some (VStr d))
    \<and> (\<exists>p. format_timestamp (strftime_local w)
              (dict_get (get_video_stats_from_api (api_get w i (bvid video))) ''pubdate'' (VInt 0)) = Inr p
            \<and> r ''publish_time'' = Some (VStr p))
    \<and> r ''tname'' =
           Some (dict_get (get_video_stats_from_api (api_get w i (bvid video))) ''tname'' (VStr unknown))
    \<and> (api_get w i (bvid video) = ApiException
         \<or> (\<exists>code stat data. api_get w i (bvid video) = ApiEnvelope code stat data \<and> code \<noteq> 0)
       \<longrightarrow> r ''reply_count'' = Some (VStr ''N/A'') \<and> r ''duration'' = Some (VInt 0)
           \<and> r ''duration_formatted'' = Some (VStr ''N/A'')
           \<and> r ''publish_time'' = Some (VStr unknown) \<and> r ''tname'' = Some (VStr unknown))
    \<and> (\<forall>stat data. api_get w i (bvid video) = ApiEnvelope 0 stat data \<longrightarrow>
          (stat ''reply'' = None \<longrightarrow> r ''reply_count'' = Some (VInt 0))
          \<and> (data ''duration'' = None \<longrightarrow>
                r ''duration'' = Some (VInt 0) \<and> r ''duration_formatted'' = Some (VStr ''N/A''))
          \<and> (data ''pubdate'' = None \<longrightarrow> r ''publish_time'' = Some (VStr unknown))
          \<and> (data ''tname'' = None \<longrightarrow> r ''tname'' = Some (VStr [])))"
proof -
  note s = enrich_structured [OF assms]
  from s(3) obtain d where d: "format_duration
      (dict_get (get_video_stats_from_api (api_get w i (bvid video))) ''duration'' (VInt 0)) = Inr d"
    and rd: "r ''duration_formatted'' = Some (VStr d)"
    by (elim exE conjE)
  from s(4) obtain p where p: "format_timestamp (strftime_local w)
      (dict_get (get_video_stats_from_api (api_get w i (bvid video))) ''pubdate'' (VInt 0)) = Inr p"
    and rp: "r ''publish_time'' = Some (VStr p)"
    by (elim exE conjE)
  have failed: "r ''reply_count'' = Some (VStr ''N/A'') \<and> r ''duration'' = Some (VInt 0)
           \<and> r ''duration_formatted'' = Some (VStr ''N/A'')
           \<and> r ''publish_time'' = Some (VStr unknown) \<and> r ''tname'' = Some (VStr unknown)"
    if "api_get w i (bvid video) = ApiException
         \<or> (\<exists>code stat data. api_get w i (bvid video) = ApiEnvelope code stat data \<and> code \<noteq> 0)"
  proof -
    have e: "get_video_stats_from_api (api_get w i (bvid video)) = Map.empty"
      using that by (rule api_failed_empty)
    show ?thesis
      using s(1,2,5) d p rd rp by (simp add: e dict_get_def)
  qed
  have ok: "(stat ''reply'' = None \<longrightarrow> r ''reply_count'' = Some (VInt 0))
          \<and> (data ''duration'' = None \<longrightarrow>
                r ''duration'' = Some (VInt 0) \<and> r ''duration_formatted'' = Some (VStr ''N/A''))
          \<and> (data ''pubdate'' = None \<longrightarrow> r ''publish_time'' = Some (VStr unknown))
          \<and> (data ''tname'' = None \<longrightarrow> r ''tname'' = Some (VStr []))"
    if "api_get w i (bvid video) = ApiEnvelope 0 stat data" for stat data
    using s(1,2,5) d p rd rp by (auto simp add: that api_ok_fields dict_get_def)
  show ?thesis
    using s failed ok by (intro conjI allI impI) simp_all
qed

theorem structured_fields_and_their_defaults_witness:
  "(\<exists>r. enrich scrape_down_world 1 demo_item = Inr r \<and> r ''reply_count'' = Some (VInt 12)
      \<and> r ''duration'' = Some (VInt 65) \<and> r ''tname'' = Some (VStr ''music''))
   \<and> (\<exists>r. enrich offline_world 1 demo_item = Inr r \<and> r ''reply_count'' = Some (VStr ''N/A'')
      \<and> r ''duration'' = Some (VInt 0) \<and> r ''duration_formatted'' = Some (VStr ''N/A'')
      \<and> r ''publish_time'' = Some (VStr unknown) \<and> r ''tname'' = Some (VStr unknown))
   \<and> (\<exists>r. enrich bare_world 1 demo_item = Inr r \<and> r ''reply_count'' = Some (VInt 0)
      \<and> r ''duration'' = Some (VInt 0) \<and> r ''duration_formatted'' = Some (VStr ''N/A'')
      \<and> r ''publish_time'' = Some (VStr unknown) \<and> r ''tname'' = Some (VStr []))"
proof -
  have "typed_answer (strftime_local scrape_down_world) (api_get scrape_down_world 1 (bvid demo_item))"
    by (simp add: world_defs int_field_def time_field_def)
  from enrich_typed [OF this] obtain r where r: "enrich scrape_down_world 1 demo_item = Inr r"
    by (elim exE conjE)
  have api: "api_get scrape_down_world 1 (bvid demo_item) =
      ApiEnvelope 0 [''view'' \<mapsto> VInt 4000, ''reply'' \<mapsto> VInt 12]
                [''duration'' \<mapsto> VInt 65, ''pubdate'' \<mapsto> VInt 1700000000,
                 ''tname'' \<mapsto> VStr ''music'']"
    by (simp add: world_defs)
  have "r ''reply_count'' = Some (VInt 12) \<and> r ''duration'' = Some (VInt 65)
      \<and> r ''tname'' = Some (VStr ''music'')"
    using structured_fields_and_their_defaults [OF r]
    by (simp add: api api_ok_fields dict_get_def)
  with r have a: "\<exists>r. enrich scrape_down_world 1 demo_item = Inr r \<and> r ''reply_count'' = Some (VInt 12)
      \<and> r ''duration'' = Some (VInt 65) \<and> r ''tname'' = Some (VStr ''music'')"
    by (intro exI [of _ r]) simp
  have "typed_answer (strftime_local offline_world) (api_get offline_world 1 (bvid demo_item))"
    by (simp add: world_defs)
  from enrich_typed [OF this] obtain r1 where r1: "enrich offline_world 1 demo_item = Inr r1"
    by (elim exE conjE)
  have api1: "api_get offline_world 1 (bvid demo_item) = ApiException"
    by (simp add: world_defs)
  have "r1 ''reply_count'' = Some (VStr ''N/A'')
      \<and> r1 ''duration'' = Some (VInt 0) \<and> r1 ''duration_formatted'' = Some (VStr ''N/A'')
      \<and> r1 ''publish_time'' = Some (VStr unknown) \<and> r1 ''tname'' = Some (VStr unknown)"
    using structured_fields_and_their_defaults [OF r1] api1
    by (elim conjE impE) simp_all
  with r1 have b: "\<exists>r. enrich offline_world 1 demo_item = Inr r \<and> r ''reply_count'' = Some (VStr ''N/A'')
      \<and> r ''duration'' = Some (VInt 0) \<and> r ''duration_formatted'' = Some (VStr ''N/A'')
      \<and> r ''publish_time'' = Some (VStr unknown) \<and> r ''tname'' = Some (VStr unknown)"
    by (intro exI [of _ r1]) simp
  have "typed_answer (strftime_local bare_world) (api_get bare_world 1 (bvid demo_item))"
    by (simp add: world_defs int_field_def time_field_def)
  from enrich_typed [OF this] obtain r2 where r2: "enrich bare_world 1 demo_item = Inr r2"
    by (elim exE conjE)
  have api2: "api_get bare_world 1 (bvid demo_item) = ApiEnvelope 0 Map.empty Map.empty"
    by (simp add: world_defs)
  have "\<forall>stat data. api_get bare_world 1 (bvid demo_item) = ApiEnvelope 0 stat data \<longrightarrow>
          (stat ''reply'' = None \<longrightarrow> r2 ''reply_count'' = Some (VInt 0))
          \<and> (data ''duration'' = None \<longrightarrow>
                r2 ''duration'' = Some (VInt 0) \<and> r2 ''duration_formatted'' = Some (VStr ''N/A''))
          \<and> (data ''pubdate'' = None \<longrightarrow> r2 ''publish_time'' = Some (VStr unknown))
          \<and> (data ''tname'' = None \<longrightarrow> r2 ''tname'' = Some (VStr []))"
    using structured_fields_and_their_defaults [OF r2] by (elim conjE)
  then have "r2 ''reply_count'' = Some (VInt 0)
      \<and> r2 ''duration'' = Some (VInt 0) \<and> r2 ''duration_formatted'' = Some (VStr ''N/A'')
      \<and> r2 ''publish_time'' = Some (VStr unknown) \<and> r2 ''tname'' = Some (VStr [])"
    using api2 by simp
  with r2 have c: "\<exists>r. enrich bare_world 1 demo_item = Inr r \<and> r ''reply_count'' = Some (VInt 0)
      \<and> r ''duration'' = Some (VInt 0) \<and> r ''duration_formatted'' = Some (VStr ''N/A'')
      \<and> r ''publish_time'' = Some (VStr unknown) \<and> r ''tname'' = Some (VStr [])"
    by (intro exI [of _ r2]) simp
  show ?thesis using a b c by (intro conjI)
qed

text \<open>
  The claim as stated fails: with a failed structured sub-fetch the reply count is \<open>'N/A'\<close>,
  not 0, and with a structured answer that lacks the category name the category is the empty
  string, not the ``unknown'' word.
\<close>

theorem reply_default_is_na:
  "field_of (enrich offline_world 1 demo_item) ''reply_count'' = Some (VStr ''N/A'')
   \<and> field_of (enrich offline_world 1 demo_item) ''reply_count'' \<noteq> Some (VInt 0)
   \<and> field_of (enrich bare_world 1 demo_item) ''tname'' = Some (VStr [])
   \<and> field_of (enrich bare_world 1 demo_item) ''tname'' \<noteq> Some (VStr unknown)"
  by (simp add: world_defs enrich_defs make_enriched_video_def unknown_def)

section \<open>Facts about the summary block\<close>
































section \<open>Facts about the tabular export\<close>

lemma header_row: "csv_row export_fields = header_line"
  by code_simp

text \<open>
  Claim C10. The tabular exporter called with an empty list leaves the files as they are: it
  creates no file and writes no header. Called with a non-empty list, the file it writes (when it
  can be opened) holds, after the byte order mark of its encoding, the header row that names
  the fifteen exported columns, and then the rows; no other file is touched.
\<close>

theorem csv_export_empty_and_header:
  "export_to_csv can_open stamp fs [] filename = fs
   \<and> (videos \<noteq> [] \<and> can_open (csv_name stamp filename) \<longrightarrow>
        (\<exists>rows. export_to_csv can_open stamp fs videos filename (csv_name stamp filename)
                  = Some (utf8_sig @ header_line @ rows))
        \<and> (\<forall>other. other \<noteq> csv_name stamp filename \<longrightarrow>
              export_to_csv can_open stamp fs videos filename other = fs other))
   \<and> (videos \<noteq> [] \<and> \<not> can_open (csv_name stamp filename) \<longrightarrow>
        export_to_csv can_open stamp fs videos filename = fs)"
  by (simp add: export_to_csv_def csv_text_def header_row)

theorem csv_export_empty_and_header_witness:
  "export_to_csv (\<lambda>n. True) ''20240501_120000'' Map.empty [] ''out.csv'' = Map.empty
   \<and> (\<exists>rows. export_to_csv (\<lambda>n. True) ''20240501_120000'' Map.empty demo_plays ''out.csv'' ''out.csv''
         = Some (utf8_sig @ header_line @ rows))
   \<and> export_to_csv (\<lambda>n. False) ''20240501_120000'' Map.empty demo_plays ''out.csv'' = Map.empty"
proof -
  have n: "csv_name ''20240501_120000'' ''out.csv'' = ''out.csv''"
    by (simp add: csv_name_def)
  have v: "demo_plays \<noteq> []"
    by (simp add: demo_plays_def)
  note t = csv_export_empty_and_header [of "\<lambda>n. True" "''20240501_120000''" Map.empty "''out.csv''" demo_plays]
  note u = csv_export_empty_and_header [of "\<lambda>n. False" "''20240501_120000''" Map.empty "''out.csv''" demo_plays]
  have "\<exists>rows. export_to_csv (\<lambda>n. True) ''20240501_120000'' Map.empty demo_plays ''out.csv'' ''out.csv''
         = Some (utf8_sig @ header_line @ rows)"
    using t v by (simp only: n) simp
  moreover have "export_to_csv (\<lambda>n. False) ''20240501_120000'' Map.empty demo_plays ''out.csv'' = Map.empty"
    using u v by simp
  moreover have "export_to_csv (\<lambda>n. True) ''20240501_120000'' Map.empty [] ''out.csv'' = Map.empty"
    using t by simp
  ultimately show ?thesis by simp
qed

section \<open>Facts about the round trip of the tabular file\<close>

lemma special_chars [simp]:
  "special (CHR 0x0D)" "special (CHR 0x0A)" "special dquote" "special (CHR '','')"
  by (simp_all add: special_def)


lemma dquote_distinct [simp]:
  "dquote \<noteq> CHR 0x0D" "dquote \<noteq> CHR 0x0A" "dquote \<noteq> CHR '',''"
  "CHR 0x0D \<noteq> dquote" "CHR 0x0A \<noteq> dquote" "CHR '','' \<noteq> dquote"
  by (simp_all add: dquote_def)






















end
